theory Spec2Isabelle
  imports Main "HOL-Library.Word"
begin

section \<open>The mock BOSH Director: entity store and task output\<close>

text \<open>
  A shallow embedding of \<^verbatim>\<open>internal/mockbosh/state.go\<close> (the entity store),
  of the types it stores (\<^verbatim>\<open>types.go\<close>) and of \<^verbatim>\<open>GetTaskOutput\<close> from
  \<^verbatim>\<open>internal/mockbosh/tasks.go\<close>.

  Conventions of the embedding:
  \<^item> a Go struct is a record with the fields of the struct, under their Go names
    (qualified by the record where two structs share a field name);
  \<^item> Go's \<^verbatim>\<open>int\<close> (on a 64-bit platform) and \<^verbatim>\<open>int64\<close> are 64-bit two's
    complement integers; they are carried as \<open>int\<close>, and the one arithmetic
    operation of the store, the increment of the task counter, wraps around
    explicitly (\<open>wrap64\<close>);
  \<^item> a \<^verbatim>\<open>float64\<close> is carried as its 64-bit pattern: the store never computes
    with one;
  \<^item> a Go map is a partial function, a slice is a list; the maps of a store are
    allocated, as \<^verbatim>\<open>DefaultFixtures\<close> allocates them;
  \<^item> the store keeps its tasks behind pointers (\<^verbatim>\<open>map[int]*Task\<close>) and hands
    such a pointer out, so \<^verbatim>\<open>Task\<close> objects live in an explicit heap: a list
    of objects, a pointer being an index into it. An index outside the heap
    stands for the nil pointer, and dereferencing it is the run-time panic;
  \<^item> every method runs under the store's mutex, so a method is one atomic step
    from state to state. A method that mutates the store returns the error of
    the Go method (\<open>None\<close> for \<^verbatim>\<open>nil\<close>) together with the store it leaves.
\<close>

subsection \<open>Machine integers and their decimal text\<close>



text \<open>The value a 64-bit signed integer holds after an operation whose exact result is \<open>x\<close>.\<close>

definition wrap64 :: "int \<Rightarrow> int" where
  "wrap64 x = (x + 9223372036854775808) mod 18446744073709551616 - 9223372036854775808"

definition digit :: "nat \<Rightarrow> char" where
  "digit n = ''0123456789'' ! (n mod 10)"

fun natStr :: "nat \<Rightarrow> string" where
  "natStr n = (if n < 10 then [digit n] else natStr (n div 10) @ [digit n])"

declare natStr.simps [simp del]

text \<open>\<^verbatim>\<open>fmt.Sprintf("%d", i)\<close>: the decimal text of an integer.\<close>

definition fmt_d :: "int \<Rightarrow> string" where
  "fmt_d i = (if i < 0 then CHR ''-'' # natStr (nat (- i)) else natStr (nat i))"

subsection \<open>The stored types (types.go)\<close>

type_synonym float64 = "64 word"

record Uptime =
  Seconds :: int

record ResourceUsage =
  Percent :: float64
  KB :: int

record CPUUsage =
  Total :: float64

record Process =
  Name :: string
  State :: string
  Uptime :: "Uptime option"
  Memory :: "ResourceUsage option"
  CPU :: "CPUUsage option"

record VM =
  VMCID :: string
  Active :: bool
  AgentID :: string
  AZ :: string
  Bootstrap :: bool
  Deployment :: string
  IPs :: "string list"
  Job :: string
  Index :: int
  ID :: string
  ProcessState :: string
  State :: string
  VMType :: string
  Ignore :: bool

record Instance =
  AgentID :: string
  AZ :: string
  Bootstrap :: bool
  Deployment :: string
  Disk :: string
  Expects :: bool
  ID :: string
  IPs :: "string list"
  Job :: string
  Index :: int
  State :: string
  VMType :: string
  VMCID :: string
  Processes :: "Process list"

record Task =
  ID :: int
  State :: string
  Description :: string
  Timestamp :: int
  Result :: string
  User :: string
  Deployment :: string
  ContextID :: string

record NameVersion =
  Name :: string
  Version :: string

record Deployment =
  Name :: string
  CloudConfig :: string
  Releases :: "NameVersion list"
  Stemcells :: "NameVersion list"

record Stemcell =
  Name :: string
  OperatingSystem :: string
  Version :: string
  CID :: string
  Deployments :: "string list"

record Release =
  Name :: string
  Version :: string
  CommitHash :: string
  UncommittedChanges :: bool

record CloudConfig =
  Properties :: string
  CreatedAt :: string

record RuntimeConfig =
  Name :: string
  Properties :: string
  CreatedAt :: string

record CPIConfig =
  Properties :: string
  CreatedAt :: string

record Variable =
  ID :: string
  Name :: string

record Lock =
  Type :: string
  Resource :: string
  Timeout :: string
  TaskID :: string

subsection \<open>The store (state.go)\<close>

type_synonym ptr = nat

text \<open>
  \<^verbatim>\<open>StateData\<close>. The field \<open>heap\<close> is not a field of the Go struct: it is the
  memory holding the \<^verbatim>\<open>Task\<close> objects that the pointers of \<open>Tasks\<close> address.
\<close>

record StateData =
  Deployments :: "string \<rightharpoonup> Deployment"
  VMs :: "string \<rightharpoonup> VM list"
  Instances :: "string \<rightharpoonup> Instance list"
  Variables :: "string \<rightharpoonup> Variable list"
  Tasks :: "int \<rightharpoonup> ptr"
  Stemcells :: "Stemcell list"
  Releases :: "Release list"
  CloudConfig :: "CloudConfig option"
  RuntimeConfigs :: "RuntimeConfig list"
  CPIConfig :: "CPIConfig option"
  Locks :: "Lock list"
  nextTaskID :: int
  heap :: "Task list"

datatype error =
  DeploymentNotFound string  \<comment> \<open>\<^verbatim>\<open>fmt.Errorf("deployment '%s' not found", name)\<close>\<close>
| TaskNotFound int  \<comment> \<open>\<^verbatim>\<open>fmt.Errorf("task %d not found", id)\<close>\<close>
| NilDereference  \<comment> \<open>the run-time panic of reading or writing through a nil pointer\<close>

definition deref :: "Task list \<Rightarrow> ptr \<Rightarrow> error + Task" where
  "deref h p = (if p < length h then Inr (h ! p) else Inl NilDereference)"


definition HasDeployment :: "StateData \<Rightarrow> string \<Rightarrow> bool" where
  "HasDeployment s name = (StateData.Deployments s name \<noteq> None)"

text \<open>The inner loop of \<^verbatim>\<open>DeleteDeployment\<close>: the references of one stemcell, without \<open>name\<close>.\<close>

definition strip_reference :: "string \<Rightarrow> Stemcell \<Rightarrow> Stemcell" where
  "strip_reference name sc =
     sc\<lparr>Stemcell.Deployments := filter (\<lambda>d. d \<noteq> name) (Stemcell.Deployments sc)\<rparr>"

definition DeleteDeployment :: "StateData \<Rightarrow> string \<Rightarrow> error option \<times> StateData" where
  "DeleteDeployment s name =
     (if StateData.Deployments s name = None then (Some (DeploymentNotFound name), s)
      else (None,
        s\<lparr>StateData.Deployments := (StateData.Deployments s)(name := None),
          VMs := (VMs s)(name := None),
          Instances := (Instances s)(name := None),
          Variables := (Variables s)(name := None),
          StateData.Stemcells := map (strip_reference name) (StateData.Stemcells s)\<rparr>))"

definition GetVMs :: "StateData \<Rightarrow> string \<Rightarrow> error + VM list" where
  "GetVMs s deployment =
     (if StateData.Deployments s deployment = None then Inl (DeploymentNotFound deployment)
      else Inr (case VMs s deployment of None \<Rightarrow> [] | Some vms \<Rightarrow> vms))"

definition GetInstances :: "StateData \<Rightarrow> string \<Rightarrow> error + Instance list" where
  "GetInstances s deployment =
     (if StateData.Deployments s deployment = None then Inl (DeploymentNotFound deployment)
      else Inr (case Instances s deployment of None \<Rightarrow> [] | Some instances \<Rightarrow> instances))"

definition GetVariables :: "StateData \<Rightarrow> string \<Rightarrow> error + Variable list" where
  "GetVariables s deployment =
     (if StateData.Deployments s deployment = None then Inl (DeploymentNotFound deployment)
      else Inr (case Variables s deployment of None \<Rightarrow> [] | Some vars \<Rightarrow> vars))"


subsection \<open>Tasks\<close>

text \<open>
  The filtering loop of \<^verbatim>\<open>GetTasks\<close>. Go visits the keys of a map in an order it
  does not specify; that order is the argument \<open>ks\<close>. A key of \<open>ks\<close> that the map
  does not hold has no entry to visit.
\<close>

fun collectTasks :: "StateData \<Rightarrow> string \<Rightarrow> string \<Rightarrow> int list \<Rightarrow> error + Task list" where
  "collectTasks s state deployment [] = Inr []"
| "collectTasks s state deployment (k # ks) =
     (case Tasks s k of
        None \<Rightarrow> collectTasks s state deployment ks
      | Some p \<Rightarrow>
         (case deref (heap s) p of
            Inl e \<Rightarrow> Inl e
          | Inr t \<Rightarrow>
             if state \<noteq> [] \<and> Task.State t \<noteq> state then collectTasks s state deployment ks
             else if deployment \<noteq> [] \<and> Task.Deployment t \<noteq> deployment
               then collectTasks s state deployment ks
             else (case collectTasks s state deployment ks of
                     Inl e \<Rightarrow> Inl e
                   | Inr result \<Rightarrow> Inr (t # result))))"

text \<open>
  \<^verbatim>\<open>sort.Slice(x, lt)\<close> of the Go library: the elements of the slice, reordered so
  that no element is \<open>lt\<close> than one before it. Go does not promise the order of
  elements neither of which is \<open>lt\<close> than the other; insertion is one such order.
\<close>

fun sortInsert :: "('a \<Rightarrow> 'a \<Rightarrow> bool) \<Rightarrow> 'a \<Rightarrow> 'a list \<Rightarrow> 'a list" where
  "sortInsert lt x [] = [x]"
| "sortInsert lt x (y # ys) = (if lt y x then y # sortInsert lt x ys else x # y # ys)"

fun sortSlice :: "('a \<Rightarrow> 'a \<Rightarrow> bool) \<Rightarrow> 'a list \<Rightarrow> 'a list" where
  "sortSlice lt [] = []"
| "sortSlice lt (x # xs) = sortInsert lt x (sortSlice lt xs)"

definition GetTasks :: "StateData \<Rightarrow> int list \<Rightarrow> string \<Rightarrow> string \<Rightarrow> int \<Rightarrow> error + Task list" where
  "GetTasks s ks state deployment limit =
     (case collectTasks s state deployment ks of
        Inl e \<Rightarrow> Inl e
      | Inr result \<Rightarrow>
          (let result' = sortSlice (\<lambda>a b. Task.ID a > Task.ID b) result
           in if limit > 0 \<and> int (length result') > limit then Inr (take (nat limit) result')
              else Inr result'))"

text \<open>\<^verbatim>\<open>GetTask\<close> returns a pointer to a fresh copy of the task: the model returns the copy.\<close>

definition GetTask :: "StateData \<Rightarrow> int \<Rightarrow> error + Task" where
  "GetTask s tid =
     (case Tasks s tid of
        None \<Rightarrow> Inl (TaskNotFound tid)
      | Some p \<Rightarrow> deref (heap s) p)"

text \<open>
  \<^verbatim>\<open>CreateTask\<close>; \<open>now\<close> is \<^verbatim>\<open>time.Now().Unix()\<close>. The new object is allocated at the
  end of the heap; the pointer to it is stored in the map, and the same pointer is
  returned.
\<close>

definition CreateTask :: "StateData \<Rightarrow> int \<Rightarrow> string \<Rightarrow> string \<Rightarrow> string \<Rightarrow> ptr \<times> StateData" where
  "CreateTask s now description deployment user =
     (let n = wrap64 (nextTaskID s + 1);
          task = \<lparr>Task.ID = n, Task.State = ''queued'', Description = description,
                  Timestamp = now, Result = [], User = user,
                  Task.Deployment = deployment, ContextID = []\<rparr>;
          p = length (heap s)
      in (p, s\<lparr>nextTaskID := n, heap := heap s @ [task], Tasks := (Tasks s)(n \<mapsto> p)\<rparr>))"

definition UpdateTaskState :: "StateData \<Rightarrow> int \<Rightarrow> string \<Rightarrow> string \<Rightarrow> error option \<times> StateData" where
  "UpdateTaskState s tid state result =
     (case Tasks s tid of
        None \<Rightarrow> (Some (TaskNotFound tid), s)
      | Some p \<Rightarrow>
         (case deref (heap s) p of
            Inl e \<Rightarrow> (Some e, s)
          | Inr t \<Rightarrow>
             (let t1 = t\<lparr>Task.State := state\<rparr>;
                  t2 = (if result \<noteq> [] then t1\<lparr>Result := result\<rparr> else t1)
              in (None, s\<lparr>heap := (heap s)[p := t2]\<rparr>))))"

text \<open>
  What a caller holding a \<^verbatim>\<open>*Task\<close> can do with it: read a field of the object
  (\<open>deref\<close>), or assign to one, as in \<^verbatim>\<open>task.State = v\<close>.
\<close>

definition assign_State :: "StateData \<Rightarrow> ptr \<Rightarrow> string \<Rightarrow> error option \<times> StateData" where
  "assign_State s p v =
     (case deref (heap s) p of
        Inl e \<Rightarrow> (Some e, s)
      | Inr t \<Rightarrow> (None, s\<lparr>heap := (heap s)[p := t\<lparr>Task.State := v\<rparr>]\<rparr>))"


subsection \<open>Operations on the VMs and instances of a deployment\<close>

definition recreateVM :: "string \<Rightarrow> string \<Rightarrow> string \<Rightarrow> VM \<Rightarrow> VM" where
  "recreateVM deployment job index vm =
     (if job \<noteq> [] \<and> VM.Job vm \<noteq> job then vm
      else if index \<noteq> [] \<and> fmt_d (VM.Index vm) \<noteq> index then vm
      else vm\<lparr>VM.VMCID :=
             ''vm-'' @ deployment @ ''-'' @ VM.Job vm @ ''-'' @ fmt_d (VM.Index vm) @ ''-recreated''\<rparr>)"

text \<open>
  \<^verbatim>\<open>vms := s.data.VMs[deployment]\<close> shares the stored slice, so the loop updates the
  stored VMs in place; a deployment without an entry has no VM to update.
\<close>

definition RecreateVMs :: "StateData \<Rightarrow> string \<Rightarrow> string \<Rightarrow> string \<Rightarrow> error option \<times> StateData" where
  "RecreateVMs s deployment job index =
     (if StateData.Deployments s deployment = None then (Some (DeploymentNotFound deployment), s)
      else (None,
        (case VMs s deployment of
           None \<Rightarrow> s
         | Some vms \<Rightarrow> s\<lparr>VMs := (VMs s)(deployment \<mapsto> map (recreateVM deployment job index) vms)\<rparr>)))"

definition processStateOf :: "string \<Rightarrow> string" where
  "processStateOf newState =
     (if newState = ''stopped'' then ''stopped''
      else if newState = ''started'' \<or> newState = ''restart'' then ''running''
      else ''running'')"

definition vmProcessStateOf :: "string \<Rightarrow> string" where
  "vmProcessStateOf newState =
     (if newState = ''stopped'' then ''stopped''
      else if newState = ''started'' \<or> newState = ''restart'' then ''running''
      else ''running'')"

definition changeVM :: "string \<Rightarrow> string \<Rightarrow> VM \<Rightarrow> VM" where
  "changeVM job newState vm =
     (if job \<noteq> [] \<and> VM.Job vm \<noteq> job then vm
      else (let vm1 = vm\<lparr>ProcessState := vmProcessStateOf newState\<rparr>
            in if newState = ''stopped'' then vm1\<lparr>VM.State := ''stopped''\<rparr>
               else vm1\<lparr>VM.State := ''started''\<rparr>))"

definition changeInstance :: "string \<Rightarrow> string \<Rightarrow> Instance \<Rightarrow> Instance" where
  "changeInstance job newState inst =
     (if job \<noteq> [] \<and> Instance.Job inst \<noteq> job then inst
      else inst\<lparr>Instance.State := processStateOf newState,
                Processes := map (\<lambda>p. p\<lparr>Process.State := processStateOf newState\<rparr>) (Processes inst)\<rparr>)"

definition ChangeJobState :: "StateData \<Rightarrow> string \<Rightarrow> string \<Rightarrow> string \<Rightarrow> error option \<times> StateData" where
  "ChangeJobState s deployment job newState =
     (if StateData.Deployments s deployment = None then (Some (DeploymentNotFound deployment), s)
      else
        (let s1 = (case VMs s deployment of
                     None \<Rightarrow> s
                   | Some vms \<Rightarrow> s\<lparr>VMs := (VMs s)(deployment \<mapsto> map (changeVM job newState) vms)\<rparr>);
             s2 = (case Instances s1 deployment of
                     None \<Rightarrow> s1
                   | Some instances \<Rightarrow>
                       s1\<lparr>Instances := (Instances s1)(deployment \<mapsto> map (changeInstance job newState) instances)\<rparr>)
         in (None, s2)))"

subsection \<open>Task output (tasks.go)\<close>


subsection \<open>A small store\<close>

text \<open>
  The part of \<^verbatim>\<open>DefaultFixtures\<close> (fixtures.go) that concerns the deployment
  \<^verbatim>\<open>redis\<close>: the deployment, its two VMs and instances, its variables, the
  stemcell it runs on, and three of the historical tasks. Resource figures of the
  processes are left out, and the clock readings are fixed numbers.
\<close>

definition redis_vm0 :: VM where
  "redis_vm0 = \<lparr>VM.VMCID = ''vm-redis-0'', Active = True, VM.AgentID = ''agent-redis-0'',
     VM.AZ = ''z1'', VM.Bootstrap = True, VM.Deployment = ''redis'', VM.IPs = [''10.0.4.10''],
     VM.Job = ''redis'', VM.Index = 0, VM.ID = ''redis-0-id'', ProcessState = ''running'',
     VM.State = ''started'', VM.VMType = ''medium'', Ignore = False\<rparr>"

definition redis_vm1 :: VM where
  "redis_vm1 = \<lparr>VM.VMCID = ''vm-redis-1'', Active = True, VM.AgentID = ''agent-redis-1'',
     VM.AZ = ''z2'', VM.Bootstrap = False, VM.Deployment = ''redis'', VM.IPs = [''10.0.4.11''],
     VM.Job = ''redis'', VM.Index = 1, VM.ID = ''redis-1-id'', ProcessState = ''running'',
     VM.State = ''started'', VM.VMType = ''medium'', Ignore = False\<rparr>"

definition redis_processes :: "Process list" where
  "redis_processes =
     [\<lparr>Process.Name = ''redis-server'', Process.State = ''running'',
       Uptime = Some \<lparr>Seconds = 604800\<rparr>, Memory = None, CPU = None\<rparr>,
      \<lparr>Process.Name = ''redis-sentinel'', Process.State = ''running'',
       Uptime = Some \<lparr>Seconds = 604800\<rparr>, Memory = None, CPU = None\<rparr>]"

definition redis_instance0 :: Instance where
  "redis_instance0 = \<lparr>Instance.AgentID = ''agent-redis-0'', Instance.AZ = ''z1'',
     Instance.Bootstrap = True, Instance.Deployment = ''redis'', Disk = ''disk-redis-0'',
     Expects = True, Instance.ID = ''redis-0-id'', Instance.IPs = [''10.0.4.10''],
     Instance.Job = ''redis'', Instance.Index = 0, Instance.State = ''running'',
     Instance.VMType = ''medium'', Instance.VMCID = ''vm-redis-0'',
     Processes = redis_processes\<rparr>"

definition redis_instance1 :: Instance where
  "redis_instance1 = \<lparr>Instance.AgentID = ''agent-redis-1'', Instance.AZ = ''z2'',
     Instance.Bootstrap = False, Instance.Deployment = ''redis'', Disk = ''disk-redis-1'',
     Expects = True, Instance.ID = ''redis-1-id'', Instance.IPs = [''10.0.4.11''],
     Instance.Job = ''redis'', Instance.Index = 1, Instance.State = ''running'',
     Instance.VMType = ''medium'', Instance.VMCID = ''vm-redis-1'',
     Processes = redis_processes\<rparr>"

definition task1 :: Task where
  "task1 = \<lparr>Task.ID = 1, Task.State = ''done'', Description = ''create deployment cf'',
     Timestamp = 1700000000, Result = ''Created'', User = ''admin'',
     Task.Deployment = ''cf'', ContextID = []\<rparr>"

definition task2 :: Task where
  "task2 = \<lparr>Task.ID = 2, Task.State = ''done'', Description = ''create deployment redis'',
     Timestamp = 1700014400, Result = ''Created'', User = ''admin'',
     Task.Deployment = ''redis'', ContextID = []\<rparr>"

definition task5 :: Task where
  "task5 = \<lparr>Task.ID = 5, Task.State = ''error'', Description = ''run errand acceptance_tests'',
     Timestamp = 1700057600, Result = ''Error: Test failure in router tests'', User = ''admin'',
     Task.Deployment = ''cf'', ContextID = []\<rparr>"

definition jammy_stemcell :: Stemcell where
  "jammy_stemcell = \<lparr>Stemcell.Name = ''bosh-google-kvm-ubuntu-jammy-go_agent'',
     OperatingSystem = ''ubuntu-jammy'', Stemcell.Version = ''1.200'',
     CID = ''stemcell-uuid-1200'', Stemcell.Deployments = [''cf'', ''redis'', ''mysql'']\<rparr>"

definition redis_deployment :: Deployment where
  "redis_deployment = \<lparr>Deployment.Name = ''redis'', Deployment.CloudConfig = ''latest'',
     Deployment.Releases = [\<lparr>NameVersion.Name = ''redis'', NameVersion.Version = ''16.0.0''\<rparr>],
     Deployment.Stemcells = [\<lparr>NameVersion.Name = ''bosh-google-kvm-ubuntu-jammy-go_agent'',
                             NameVersion.Version = ''1.200''\<rparr>]\<rparr>"

definition redis_store :: StateData where
  "redis_store = \<lparr>StateData.Deployments = [''redis'' \<mapsto> redis_deployment],
     VMs = [''redis'' \<mapsto> [redis_vm0, redis_vm1]],
     Instances = [''redis'' \<mapsto> [redis_instance0, redis_instance1]],
     Variables = [''redis'' \<mapsto> [\<lparr>Variable.ID = ''var-10'', Variable.Name = ''redis_password''\<rparr>,
                                 \<lparr>Variable.ID = ''var-11'', Variable.Name = ''redis_tls_ca''\<rparr>]],
     Tasks = [1 \<mapsto> 0, 2 \<mapsto> 1, 5 \<mapsto> 2],
     StateData.Stemcells = [jammy_stemcell],
     StateData.Releases = [],
     StateData.CloudConfig = None,
     RuntimeConfigs = [],
     CPIConfig = None,
     Locks = [],
     nextTaskID = 100,
     heap = [task1, task2, task5]\<rparr>"

subsection \<open>Notions used to state the properties\<close>

text \<open>No task pointer of the store is nil.\<close>

definition tasks_valid :: "StateData \<Rightarrow> bool" where
  "tasks_valid s \<longleftrightarrow> (\<forall>k p. Tasks s k = Some p \<longrightarrow> p < length (heap s))"

text \<open>\<open>ks\<close> is an order in which \<^verbatim>\<open>range\<close> may visit the task map: every key, once.\<close>

definition range_order :: "StateData \<Rightarrow> int list \<Rightarrow> bool" where
  "range_order s ks \<longleftrightarrow> distinct ks \<and> set ks = dom (Tasks s)"

text \<open>A task passes the two filters of the task listing; an empty filter lets every task pass.\<close>

definition task_matches :: "string \<Rightarrow> string \<Rightarrow> Task \<Rightarrow> bool" where
  "task_matches state deployment t \<longleftrightarrow>
     (state = [] \<or> Task.State t = state) \<and> (deployment = [] \<or> Task.Deployment t = deployment)"


text \<open>
  The states the specification gives for a job-state change: \<^verbatim>\<open>stopped\<close> maps the
  lifecycle state of a VM to \<^verbatim>\<open>stopped\<close> and its process state to \<^verbatim>\<open>stopped\<close>;
  \<^verbatim>\<open>started\<close> and \<^verbatim>\<open>restart\<close> map them to \<^verbatim>\<open>started\<close> and \<^verbatim>\<open>running\<close>. The
  state of an instance and of its processes is the process state.
\<close>

definition claimed_vm_states :: "string \<Rightarrow> VM \<Rightarrow> bool" where
  "claimed_vm_states newState vm \<longleftrightarrow>
     (newState = ''stopped'' \<longrightarrow> VM.State vm = ''stopped'' \<and> ProcessState vm = ''stopped'')
     \<and> (newState = ''started'' \<or> newState = ''restart'' \<longrightarrow>
           VM.State vm = ''started'' \<and> ProcessState vm = ''running'')"

definition claimed_process_state :: "string \<Rightarrow> string \<Rightarrow> bool" where
  "claimed_process_state newState v \<longleftrightarrow>
     (newState = ''stopped'' \<longrightarrow> v = ''stopped'')
     \<and> (newState = ''started'' \<or> newState = ''restart'' \<longrightarrow> v = ''running'')"


section \<open>Properties\<close>

subsection \<open>Task identifiers\<close>







subsection \<open>Deleting a deployment\<close>



text \<open>
  Claim C3. \<^verbatim>\<open>DeleteDeployment\<close> of a name for which no deployment exists returns the
  not-found error and leaves the whole store as it was.
\<close>

theorem DeleteDeployment_absent_unchanged:
  "StateData.Deployments s name = None \<Longrightarrow>
   DeleteDeployment s name = (Some (DeploymentNotFound name), s)"
  by (simp add: DeleteDeployment_def)

theorem DeleteDeployment_absent_unchanged_witness:
  "StateData.Deployments redis_store ''mysql'' = None
   \<and> DeleteDeployment redis_store ''mysql'' = (Some (DeploymentNotFound ''mysql''), redis_store)"
proof -
  have h: "StateData.Deployments redis_store ''mysql'' = None"
    by (simp add: redis_store_def)
  show ?thesis using h DeleteDeployment_absent_unchanged[OF h] by simp
qed

subsection \<open>Listing tasks\<close>

lemma collectTasks_set:
  assumes "tasks_valid s"
  shows "\<exists>r. collectTasks s st dep ks = Inr r \<and>
           set r = {t. \<exists>k p. k \<in> set ks \<and> Tasks s k = Some p \<and> heap s ! p = t \<and> task_matches st dep t}"
proof (induction ks)
  case Nil
  then show ?case by simp
next
  case (Cons k ks)
  then obtain r where r: "collectTasks s st dep ks = Inr r"
    and sr: "set r = {t. \<exists>k p. k \<in> set ks \<and> Tasks s k = Some p \<and> heap s ! p = t \<and> task_matches st dep t}"
    by blast
  show ?case
  proof (cases "Tasks s k")
    case None
    then show ?thesis using r sr by auto
  next
    case (Some p)
    with assms have "p < length (heap s)" by (simp add: tasks_valid_def)
    then have d: "deref (heap s) p = Inr (heap s ! p)" by (simp add: deref_def)
    show ?thesis
    proof (cases "task_matches st dep (heap s ! p)")
      case True
      then have "collectTasks s st dep (k # ks) = Inr ((heap s ! p) # r)"
        using Some d r by (auto simp: task_matches_def)
      moreover have "set ((heap s ! p) # r) =
        {t. \<exists>k' p'. k' \<in> set (k # ks) \<and> Tasks s k' = Some p' \<and> heap s ! p' = t \<and> task_matches st dep t}"
        using sr Some True by auto
      ultimately show ?thesis by blast
    next
      case False
      then have "collectTasks s st dep (k # ks) = Inr r"
        using Some d r by (auto simp: task_matches_def)
      moreover have "set r =
        {t. \<exists>k' p'. k' \<in> set (k # ks) \<and> Tasks s k' = Some p' \<and> heap s ! p' = t \<and> task_matches st dep t}"
        using sr Some False by auto
      ultimately show ?thesis by blast
    qed
  qed
qed

lemma set_sortInsert: "set (sortInsert lt x xs) = insert x (set xs)"
  by (induction xs) auto

lemma set_sortSlice: "set (sortSlice lt xs) = set xs"
  by (induction xs) (auto simp: set_sortInsert)

lemma length_sortInsert: "length (sortInsert lt x xs) = Suc (length xs)"
  by (induction xs) auto

lemma length_sortSlice: "length (sortSlice lt xs) = length xs"
  by (induction xs) (auto simp: length_sortInsert)

lemma sorted_sortInsert:
  fixes f :: "'a \<Rightarrow> int"
  assumes "sorted_wrt (\<lambda>a b. f a \<ge> f b) xs"
  shows "sorted_wrt (\<lambda>a b. f a \<ge> f b) (sortInsert (\<lambda>a b. f a > f b) x xs)"
  using assms by (induction xs) (auto simp: set_sortInsert)

lemma sorted_sortSlice:
  fixes f :: "'a \<Rightarrow> int"
  shows "sorted_wrt (\<lambda>a b. f a \<ge> f b) (sortSlice (\<lambda>a b. f a > f b) xs)"
  by (induction xs) (auto simp: sorted_sortInsert)

lemma GetTasks_limit:
  "GetTasks s ks st dep limit =
     (case GetTasks s ks st dep 0 of Inl e \<Rightarrow> Inl e
      | Inr r \<Rightarrow> Inr (if limit > 0 then take (nat limit) r else r))"
  by (auto simp: GetTasks_def Let_def split: sum.splits)

lemma GetTasks_all:
  assumes "tasks_valid s"
  shows "\<exists>r. GetTasks s ks st dep 0 = Inr r \<and>
           set r = {t. \<exists>k p. k \<in> set ks \<and> Tasks s k = Some p \<and> heap s ! p = t \<and> task_matches st dep t}
           \<and> sorted_wrt (\<lambda>a b. Task.ID a \<ge> Task.ID b) r"
proof -
  from collectTasks_set[OF assms, of st dep ks] obtain r where
    r: "collectTasks s st dep ks = Inr r"
    and sr: "set r = {t. \<exists>k p. k \<in> set ks \<and> Tasks s k = Some p \<and> heap s ! p = t \<and> task_matches st dep t}"
    by blast
  have "GetTasks s ks st dep 0 = Inr (sortSlice (\<lambda>a b. Task.ID a > Task.ID b) r)"
    by (simp add: GetTasks_def r)
  then show ?thesis using sr by (simp add: set_sortSlice sorted_sortSlice)
qed

text \<open>
  Claim C4. On a store without nil task pointers, and whatever the order \<open>ks\<close> in which
  the task map is visited: \<^verbatim>\<open>GetTasks\<close> with limit 0 returns a list \<open>r\<close> that holds
  a task if and only if the task is stored and passes the state filter (when not empty)
  and the deployment filter (when not empty); \<open>r\<close> is ordered by descending task
  identifier; and \<^verbatim>\<open>GetTasks\<close> with any limit returns the first \<open>limit\<close> entries of \<open>r\<close>
  when the limit is positive, and all of \<open>r\<close> otherwise.
\<close>

theorem GetTasks_filtered_sorted_limited:
  assumes "tasks_valid s" and "range_order s ks"
  shows "\<exists>r. GetTasks s ks state deployment 0 = Inr r
           \<and> (\<forall>t. t \<in> set r \<longleftrightarrow>
                 (\<exists>k p. Tasks s k = Some p \<and> heap s ! p = t)
                 \<and> (state = [] \<or> Task.State t = state)
                 \<and> (deployment = [] \<or> Task.Deployment t = deployment))
           \<and> sorted_wrt (\<lambda>a b. Task.ID a \<ge> Task.ID b) r
           \<and> GetTasks s ks state deployment limit = Inr (if limit > 0 then take (nat limit) r else r)"
proof -
  from GetTasks_all[OF assms(1), of ks state deployment] obtain r where
    r: "GetTasks s ks state deployment 0 = Inr r"
    and sr: "set r = {t. \<exists>k p. k \<in> set ks \<and> Tasks s k = Some p \<and> heap s ! p = t \<and> task_matches state deployment t}"
    and so: "sorted_wrt (\<lambda>a b. Task.ID a \<ge> Task.ID b) r"
    by blast
  have ks: "\<And>k p. Tasks s k = Some p \<Longrightarrow> k \<in> set ks"
    using assms(2) by (auto simp: range_order_def)
  have mem: "\<forall>t. t \<in> set r \<longleftrightarrow>
                 (\<exists>k p. Tasks s k = Some p \<and> heap s ! p = t)
                 \<and> (state = [] \<or> Task.State t = state)
                 \<and> (deployment = [] \<or> Task.Deployment t = deployment)"
    unfolding sr task_matches_def using ks by blast
  have lim: "GetTasks s ks state deployment limit = Inr (if limit > 0 then take (nat limit) r else r)"
    by (subst GetTasks_limit) (simp add: r)
  show ?thesis using r mem so lim by blast
qed

theorem GetTasks_filtered_sorted_limited_witness:
  "tasks_valid redis_store \<and> range_order redis_store [5, 1, 2]
   \<and> (\<exists>r. GetTasks redis_store [5, 1, 2] ''done'' [] 0 = Inr r
           \<and> (\<forall>t. t \<in> set r \<longleftrightarrow>
                 (\<exists>k p. Tasks redis_store k = Some p \<and> heap redis_store ! p = t)
                 \<and> (''done'' = [] \<or> Task.State t = ''done'')
                 \<and> ([] = [] \<or> Task.Deployment t = []))
           \<and> sorted_wrt (\<lambda>a b. Task.ID a \<ge> Task.ID b) r
           \<and> GetTasks redis_store [5, 1, 2] ''done'' [] 1 = Inr (if (1::int) > 0 then take (nat 1) r else r))"
proof -
  have v: "tasks_valid redis_store"
    by (simp add: tasks_valid_def redis_store_def)
  have o: "range_order redis_store [5, 1, 2]"
    by (auto simp: range_order_def redis_store_def)
  show ?thesis
    using v o GetTasks_filtered_sorted_limited[OF v o, of "''done''" "[]" 1] by simp
qed

subsection \<open>Changing the state of jobs\<close>

lemma list_all2_map_same: "(\<And>x. x \<in> set xs \<Longrightarrow> P x (f x)) \<Longrightarrow> list_all2 P xs (map f xs)"
  by (induction xs) auto

lemma list_all2_rightD:
  "list_all2 (\<lambda>x y. Q y \<and> R x y) xs ys \<Longrightarrow> (\<forall>y \<in> set ys. Q y) \<and> length ys = length xs"
  by (auto simp: list_all2_conv_all_nth in_set_conv_nth)

lemma changeVM_sets:
  "job = [] \<or> VM.Job vm = job \<Longrightarrow> claimed_vm_states newState (changeVM job newState vm)"
  by (auto simp: changeVM_def vmProcessStateOf_def Let_def claimed_vm_states_def)

lemma changeVM_keeps: "VM.Job (changeVM job newState vm) = VM.Job vm"
  by (simp add: changeVM_def Let_def)

lemma changeInstance_sets:
  assumes "job = [] \<or> Instance.Job inst = job"
  shows "claimed_process_state newState (Instance.State (changeInstance job newState inst))"
    and "list_all2 (\<lambda>p p'. claimed_process_state newState (Process.State p')
                      \<and> Process.Name p' = Process.Name p)
           (Processes inst) (Processes (changeInstance job newState inst))"
proof -
  show "claimed_process_state newState (Instance.State (changeInstance job newState inst))"
    using assms by (auto simp: changeInstance_def processStateOf_def claimed_process_state_def)
  have "list_all2 (\<lambda>p p'. claimed_process_state newState (Process.State p')
                      \<and> Process.Name p' = Process.Name p)
          (Processes inst) (map (\<lambda>p. p\<lparr>Process.State := processStateOf newState\<rparr>) (Processes inst))"
    by (rule list_all2_map_same) (simp add: processStateOf_def claimed_process_state_def)
  then show "list_all2 (\<lambda>p p'. claimed_process_state newState (Process.State p')
                      \<and> Process.Name p' = Process.Name p)
           (Processes inst) (Processes (changeInstance job newState inst))"
    using assms by (auto simp: changeInstance_def)
qed

lemma changeInstance_keeps: "Instance.Job (changeInstance job newState inst) = Instance.Job inst"
  by (simp add: changeInstance_def)

lemma ChangeJobState_VMs:
  "StateData.Deployments s deployment \<noteq> None \<Longrightarrow>
   GetVMs (snd (ChangeJobState s deployment job newState)) deployment
     = map_sum (\<lambda>e. e) (map (changeVM job newState)) (GetVMs s deployment)"
  by (auto simp: ChangeJobState_def GetVMs_def Let_def split: option.splits)

lemma ChangeJobState_Instances:
  "StateData.Deployments s deployment \<noteq> None \<Longrightarrow>
   GetInstances (snd (ChangeJobState s deployment job newState)) deployment
     = map_sum (\<lambda>e. e) (map (changeInstance job newState)) (GetInstances s deployment)"
  by (auto simp: ChangeJobState_def GetInstances_def Let_def split: option.splits)

lemma ChangeJobState_ok:
  "StateData.Deployments s deployment \<noteq> None \<Longrightarrow>
   fst (ChangeJobState s deployment job newState) = None"
  by (simp add: ChangeJobState_def Let_def)

text \<open>
  Claim C5. For an existing deployment, \<^verbatim>\<open>ChangeJobState\<close> returns no error and
  leaves, position by position, the VMs and the instances of the deployment: every VM
  whose job matches (an empty job matches all) has the lifecycle and process state that
  \<open>claimed_vm_states\<close> gives for the new state, and every instance whose job matches
  has the state that \<open>claimed_process_state\<close> gives, as has each of its processes, none
  of which is added or dropped.
\<close>

theorem ChangeJobState_sets_states:
  assumes "StateData.Deployments s deployment \<noteq> None"
  shows "\<exists>s' vms vms' insts insts'.
           ChangeJobState s deployment job newState = (None, s')
           \<and> GetVMs s deployment = Inr vms \<and> GetVMs s' deployment = Inr vms'
           \<and> GetInstances s deployment = Inr insts \<and> GetInstances s' deployment = Inr insts'
           \<and> list_all2 (\<lambda>vm vm'. VM.Job vm' = VM.Job vm
                 \<and> (job = [] \<or> VM.Job vm = job \<longrightarrow> claimed_vm_states newState vm'))
               vms vms'
           \<and> list_all2 (\<lambda>inst inst'. Instance.Job inst' = Instance.Job inst
                 \<and> (job = [] \<or> Instance.Job inst = job \<longrightarrow>
                      claimed_process_state newState (Instance.State inst')
                      \<and> list_all2 (\<lambda>p p'. claimed_process_state newState (Process.State p')
                                     \<and> Process.Name p' = Process.Name p)
                           (Processes inst) (Processes inst')))
               insts insts'"
proof -
  obtain e s' where r: "ChangeJobState s deployment job newState = (e, s')"
    by (cases "ChangeJobState s deployment job newState") auto
  have e: "e = None" using ChangeJobState_ok[OF assms, of job newState] r by simp
  obtain vms where vms: "GetVMs s deployment = Inr vms"
    using assms by (simp add: GetVMs_def)
  obtain insts where insts: "GetInstances s deployment = Inr insts"
    using assms by (simp add: GetInstances_def)
  have vms': "GetVMs s' deployment = Inr (map (changeVM job newState) vms)"
    using ChangeJobState_VMs[OF assms, of job newState] r vms by simp
  have insts': "GetInstances s' deployment = Inr (map (changeInstance job newState) insts)"
    using ChangeJobState_Instances[OF assms, of job newState] r insts by simp
  have a: "list_all2 (\<lambda>vm vm'. VM.Job vm' = VM.Job vm
                 \<and> (job = [] \<or> VM.Job vm = job \<longrightarrow> claimed_vm_states newState vm'))
               vms (map (changeVM job newState) vms)"
    by (rule list_all2_map_same) (simp add: changeVM_sets changeVM_keeps)
  have b: "list_all2 (\<lambda>inst inst'. Instance.Job inst' = Instance.Job inst
                 \<and> (job = [] \<or> Instance.Job inst = job \<longrightarrow>
                      claimed_process_state newState (Instance.State inst')
                      \<and> list_all2 (\<lambda>p p'. claimed_process_state newState (Process.State p')
                                     \<and> Process.Name p' = Process.Name p)
                           (Processes inst) (Processes inst')))
               insts (map (changeInstance job newState) insts)"
    by (rule list_all2_map_same) (simp add: changeInstance_sets changeInstance_keeps)
  show ?thesis
    by (intro exI conjI) (rule r[unfolded e] vms vms' insts insts' a b)+
qed

theorem ChangeJobState_sets_states_witness:
  "StateData.Deployments redis_store ''redis'' \<noteq> None
   \<and> (\<exists>s' vm0 vm1 inst0 inst1.
         ChangeJobState redis_store ''redis'' ''redis'' ''stopped'' = (None, s')
         \<and> GetVMs s' ''redis'' = Inr [vm0, vm1]
         \<and> VM.State vm0 = ''stopped'' \<and> ProcessState vm0 = ''stopped''
         \<and> VM.State vm1 = ''stopped'' \<and> ProcessState vm1 = ''stopped''
         \<and> GetInstances s' ''redis'' = Inr [inst0, inst1]
         \<and> Instance.State inst0 = ''stopped'' \<and> Instance.State inst1 = ''stopped''
         \<and> length (Processes inst0) = 2 \<and> length (Processes inst1) = 2
         \<and> (\<forall>p \<in> set (Processes inst0 @ Processes inst1). Process.State p = ''stopped''))"
proof -
  have h: "StateData.Deployments redis_store ''redis'' \<noteq> None"
    by (simp add: redis_store_def)
  have v: "GetVMs redis_store ''redis'' = Inr [redis_vm0, redis_vm1]"
    by (simp add: GetVMs_def redis_store_def)
  have i: "GetInstances redis_store ''redis'' = Inr [redis_instance0, redis_instance1]"
    by (simp add: GetInstances_def redis_store_def)
  have j: "VM.Job redis_vm0 = ''redis''" "VM.Job redis_vm1 = ''redis''"
    "Instance.Job redis_instance0 = ''redis''" "Instance.Job redis_instance1 = ''redis''"
    by (simp_all add: redis_vm0_def redis_vm1_def redis_instance0_def redis_instance1_def)
  have p: "Processes redis_instance0 = redis_processes" "Processes redis_instance1 = redis_processes"
    "length redis_processes = 2"
    by (simp_all add: redis_instance0_def redis_instance1_def redis_processes_def)
  from ChangeJobState_sets_states[OF h, of "''redis''" "''stopped''"] v i
  obtain s' vms' insts' where
    r: "ChangeJobState redis_store ''redis'' ''redis'' ''stopped'' = (None, s')"
    and gv: "GetVMs s' ''redis'' = Inr vms'" and gi: "GetInstances s' ''redis'' = Inr insts'"
    and a: "list_all2 (\<lambda>vm vm'. VM.Job vm' = VM.Job vm
                 \<and> (''redis'' = [] \<or> VM.Job vm = ''redis'' \<longrightarrow> claimed_vm_states ''stopped'' vm'))
               [redis_vm0, redis_vm1] vms'"
    and b: "list_all2 (\<lambda>inst inst'. Instance.Job inst' = Instance.Job inst
                 \<and> (''redis'' = [] \<or> Instance.Job inst = ''redis'' \<longrightarrow>
                      claimed_process_state ''stopped'' (Instance.State inst')
                      \<and> list_all2 (\<lambda>p p'. claimed_process_state ''stopped'' (Process.State p')
                                     \<and> Process.Name p' = Process.Name p)
                           (Processes inst) (Processes inst')))
               [redis_instance0, redis_instance1] insts'"
    by auto
  from a obtain vm0 vm1 where vms': "vms' = [vm0, vm1]"
    and sv: "claimed_vm_states ''stopped'' vm0" "claimed_vm_states ''stopped'' vm1"
    by (auto simp: list_all2_Cons1 j)
  from b obtain inst0 inst1 where insts': "insts' = [inst0, inst1]"
    and si: "claimed_process_state ''stopped'' (Instance.State inst0)"
      "claimed_process_state ''stopped'' (Instance.State inst1)"
    and l0: "list_all2 (\<lambda>p p'. claimed_process_state ''stopped'' (Process.State p')
                                     \<and> Process.Name p' = Process.Name p)
               redis_processes (Processes inst0)"
    and l1: "list_all2 (\<lambda>p p'. claimed_process_state ''stopped'' (Process.State p')
                                     \<and> Process.Name p' = Process.Name p)
               redis_processes (Processes inst1)"
    by (auto simp: list_all2_Cons1 j p)
  have sp: "length (Processes inst0) = 2" "length (Processes inst1) = 2"
    "\<forall>p \<in> set (Processes inst0 @ Processes inst1). Process.State p = ''stopped''"
    using list_all2_rightD[OF l0] list_all2_rightD[OF l1] p(3)
    by (auto simp: claimed_process_state_def)
  show ?thesis
    using h r gv gi vms' insts' sv si sp
    by (auto simp: claimed_vm_states_def claimed_process_state_def)
qed

subsection \<open>Creating and updating tasks\<close>

text \<open>
  Claim C6. \<^verbatim>\<open>CreateTask\<close> allocates the next identifier and stores a task in state
  \<^verbatim>\<open>queued\<close> with the clock reading as timestamp, but the pointer it returns is the
  stored one, not a copy: on the small store, the task created is stored under 101 and
  the returned pointer is the pointer of the map; after the caller assigns
  \<^verbatim>\<open>task.State = "done"\<close> through the returned pointer, \<^verbatim>\<open>GetTask(101)\<close> reports the
  state \<^verbatim>\<open>done\<close>. The getters of the store (\<^verbatim>\<open>GetTask\<close>, \<^verbatim>\<open>GetDeployment\<close>,
  \<^verbatim>\<open>GetCloudConfig\<close>, \<^verbatim>\<open>GetCPIConfig\<close>) copy the object before returning a pointer.
\<close>

theorem CreateTask_returns_stored_pointer:
  "(case CreateTask redis_store 1700060000 ''delete deployment redis'' ''redis'' ''admin'' of
      (p, s1) \<Rightarrow>
        GetTask s1 101 = Inr \<lparr>Task.ID = 101, Task.State = ''queued'',
            Description = ''delete deployment redis'', Timestamp = 1700060000, Result = [],
            User = ''admin'', Task.Deployment = ''redis'', ContextID = []\<rparr>
        \<and> Tasks s1 101 = Some p
        \<and> (case assign_State s1 p ''done'' of
             (e, s2) \<Rightarrow>
               e = None
               \<and> GetTask s2 101 = Inr \<lparr>Task.ID = 101, Task.State = ''done'',
                   Description = ''delete deployment redis'', Timestamp = 1700060000, Result = [],
                   User = ''admin'', Task.Deployment = ''redis'', ContextID = []\<rparr>))"
  by (simp add: CreateTask_def assign_State_def GetTask_def deref_def redis_store_def wrap64_def Let_def)

text \<open>
  Claim C7. \<^verbatim>\<open>UpdateTaskState\<close> of an identifier the store does not hold returns the
  not-found error and leaves the store as it was. For a task that \<^verbatim>\<open>GetTask\<close> returns,
  it returns no error, and \<^verbatim>\<open>GetTask\<close> then returns the task with the new state, and
  with the new result text when that text is not empty and the former result text when
  it is; no other field differs.
\<close>

theorem UpdateTaskState_sets_state:
  "(Tasks s tid = None \<longrightarrow>
      UpdateTaskState s tid state result = (Some (TaskNotFound tid), s))
   \<and> (\<forall>t. GetTask s tid = Inr t \<longrightarrow>
        (\<exists>s'. UpdateTaskState s tid state result = (None, s')
           \<and> GetTask s' tid =
               Inr (t\<lparr>Task.State := state, Result := (if result = [] then Result t else result)\<rparr>)))"
  by (auto simp: UpdateTaskState_def GetTask_def deref_def Let_def split: option.splits if_splits)

theorem UpdateTaskState_sets_state_witness:
  "Tasks redis_store 99999 = None
   \<and> UpdateTaskState redis_store 99999 ''done'' [] = (Some (TaskNotFound 99999), redis_store)
   \<and> GetTask redis_store 2 = Inr task2
   \<and> (\<exists>s'. UpdateTaskState redis_store 2 ''processing'' [] = (None, s')
         \<and> GetTask s' 2 = Inr (task2\<lparr>Task.State := ''processing'', Result := ''Created''\<rparr>))"
proof -
  have a: "Tasks redis_store 99999 = None"
    by (simp add: redis_store_def)
  have b: "GetTask redis_store 2 = Inr task2"
    by (simp add: GetTask_def redis_store_def deref_def)
  have r: "Result task2 = ''Created''" by (simp add: task2_def)
  show ?thesis
    using a b r UpdateTaskState_sets_state[of redis_store 99999 "''done''" "[]"]
      UpdateTaskState_sets_state[of redis_store 2 "''processing''" "[]"]
    by simp
qed

subsection \<open>Recreating VMs\<close>

text \<open>
  Claim C8. For an existing deployment, \<^verbatim>\<open>RecreateVMs\<close> returns no error and leaves,
  position by position, the VMs of the deployment: a VM whose job matches (an empty job
  matches all) and whose index in decimal text equals the index string (an empty string
  matches all) differs from the former VM in its identifier only, which is
  \<^verbatim>\<open>vm-{deployment}-{job}-{index}-recreated\<close> with the job and index of that VM; every
  other VM is unchanged; no lifecycle or process state changes.
\<close>

theorem RecreateVMs_replaces_identifier:
  assumes "StateData.Deployments s deployment \<noteq> None"
  shows "\<exists>s' vms vms'. RecreateVMs s deployment job index = (None, s')
           \<and> GetVMs s deployment = Inr vms \<and> GetVMs s' deployment = Inr vms'
           \<and> list_all2 (\<lambda>vm vm'.
                 (if (job = [] \<or> VM.Job vm = job) \<and> (index = [] \<or> fmt_d (VM.Index vm) = index)
                  then vm' = vm\<lparr>VM.VMCID := ''vm-'' @ deployment @ ''-'' @ VM.Job vm @ ''-''
                                    @ fmt_d (VM.Index vm) @ ''-recreated''\<rparr>
                  else vm' = vm)
                 \<and> VM.State vm' = VM.State vm \<and> ProcessState vm' = ProcessState vm) vms vms'"
proof (cases "VMs s deployment")
  case None
  then show ?thesis using assms by (simp add: RecreateVMs_def GetVMs_def)
next
  case (Some vms)
  have "list_all2 (\<lambda>vm vm'.
                 (if (job = [] \<or> VM.Job vm = job) \<and> (index = [] \<or> fmt_d (VM.Index vm) = index)
                  then vm' = vm\<lparr>VM.VMCID := ''vm-'' @ deployment @ ''-'' @ VM.Job vm @ ''-''
                                    @ fmt_d (VM.Index vm) @ ''-recreated''\<rparr>
                  else vm' = vm)
                 \<and> VM.State vm' = VM.State vm \<and> ProcessState vm' = ProcessState vm)
          vms (map (recreateVM deployment job index) vms)"
    by (rule list_all2_map_same) (auto simp: recreateVM_def)
  then show ?thesis using assms Some by (simp add: RecreateVMs_def GetVMs_def)
qed

theorem RecreateVMs_replaces_identifier_witness:
  "StateData.Deployments redis_store ''redis'' \<noteq> None
   \<and> (\<exists>s'. RecreateVMs redis_store ''redis'' ''redis'' ''0'' = (None, s')
        \<and> GetVMs s' ''redis'' = Inr [redis_vm0\<lparr>VM.VMCID := ''vm-redis-redis-0-recreated''\<rparr>, redis_vm1])"
proof -
  have h: "StateData.Deployments redis_store ''redis'' \<noteq> None"
    by (simp add: redis_store_def)
  have f0: "fmt_d 0 = ''0''" and f1: "fmt_d 1 = ''1''"
    by (simp_all add: fmt_d_def natStr.simps digit_def)
  have v: "GetVMs redis_store ''redis'' = Inr [redis_vm0, redis_vm1]"
    by (simp add: GetVMs_def redis_store_def)
  have i: "VM.Index redis_vm0 = 0" "VM.Index redis_vm1 = 1" "VM.Job redis_vm0 = ''redis''"
    "VM.Job redis_vm1 = ''redis''"
    by (simp_all add: redis_vm0_def redis_vm1_def)
  from RecreateVMs_replaces_identifier[OF h, of "''redis''" "''0''"] v
  show ?thesis using h by (auto simp: list_all2_Cons1 f0 f1 i)
qed

subsection \<open>Task output\<close>




subsection \<open>Tasks outlive their deployment\<close>

lemma DeleteDeployment_tasks:
  "Tasks (snd (DeleteDeployment s name)) = Tasks s"
  "heap (snd (DeleteDeployment s name)) = heap s"
  "nextTaskID (snd (DeleteDeployment s name)) = nextTaskID s"
  by (simp_all add: DeleteDeployment_def)

lemma collectTasks_cong:
  assumes "Tasks s' = Tasks s" and "heap s' = heap s"
  shows "collectTasks s' st dep ks = collectTasks s st dep ks"
proof (induction ks)
  case Nil
  show ?case by simp
next
  case (Cons k ks)
  show ?case
    by (simp only: collectTasks.simps assms Cons.IH)
qed

lemma GetTasks_cong:
  assumes "Tasks s' = Tasks s" and "heap s' = heap s"
  shows "GetTasks s' ks st dep limit = GetTasks s ks st dep limit"
  by (simp only: GetTasks_def collectTasks_cong[OF assms])

lemma GetTask_cong:
  assumes "Tasks s' = Tasks s" and "heap s' = heap s"
  shows "GetTask s' tid = GetTask s tid"
  by (simp only: GetTask_def assms)

lemma GetTask_stored:
  "Tasks s tid = Some p \<Longrightarrow> p < length (heap s) \<Longrightarrow> GetTask s tid = Inr (heap s ! p)"
  by (simp add: GetTask_def deref_def)

text \<open>
  Claim C10. \<^verbatim>\<open>DeleteDeployment\<close>, which returns no error exactly when the deployment
  exists, leaves the task map and the task objects as they were. A stored task whose
  deployment field names the deleted deployment is still returned by \<^verbatim>\<open>GetTask\<close>, and
  is in the list of \<^verbatim>\<open>GetTasks\<close> without filters and with the deleted deployment as
  deployment filter; \<^verbatim>\<open>GetTask\<close> and \<^verbatim>\<open>GetTasks\<close> return after the deletion what they
  returned before it, for all arguments.
\<close>

theorem DeleteDeployment_keeps_tasks:
  assumes "tasks_valid s" and "range_order s ks"
    and "Tasks s tid = Some p" and "Task.Deployment (heap s ! p) = name"
  shows "\<exists>e s'. DeleteDeployment s name = (e, s')
           \<and> (e = None \<longleftrightarrow> StateData.Deployments s name \<noteq> None)
           \<and> Tasks s' = Tasks s \<and> heap s' = heap s
           \<and> GetTask s' tid = Inr (heap s ! p)
           \<and> (\<exists>r. GetTasks s' ks [] name 0 = Inr r \<and> heap s ! p \<in> set r)
           \<and> (\<exists>r. GetTasks s' ks [] [] 0 = Inr r \<and> heap s ! p \<in> set r)
           \<and> (\<forall>tid'. GetTask s' tid' = GetTask s tid')
           \<and> (\<forall>ks' state deployment limit.
                 GetTasks s' ks' state deployment limit = GetTasks s ks' state deployment limit)"
proof -
  obtain e s' where r: "DeleteDeployment s name = (e, s')"
    by (cases "DeleteDeployment s name") auto
  have e: "e = None \<longleftrightarrow> StateData.Deployments s name \<noteq> None"
    using r by (auto simp: DeleteDeployment_def split: if_splits)
  have t: "Tasks s' = Tasks s" and h: "heap s' = heap s"
    using DeleteDeployment_tasks[of s name] r by simp_all
  have p: "p < length (heap s)" using assms(1,3) by (simp add: tasks_valid_def)
  have k: "tid \<in> set ks" using assms(2,3) by (auto simp: range_order_def)
  have g: "GetTask s' tid = Inr (heap s ! p)"
    using GetTask_cong[OF t h, of tid] GetTask_stored[OF assms(3) p] by simp
  have m1: "task_matches [] name (heap s ! p)" and m2: "task_matches [] [] (heap s ! p)"
    using assms(4) by (simp_all add: task_matches_def)
  have l1: "\<exists>r. GetTasks s' ks [] name 0 = Inr r \<and> heap s ! p \<in> set r"
    using GetTasks_all[OF assms(1), of ks "[]" name] GetTasks_cong[OF t h, of ks "[]" name 0]
      k assms(3) m1 by auto
  have l2: "\<exists>r. GetTasks s' ks [] [] 0 = Inr r \<and> heap s ! p \<in> set r"
    using GetTasks_all[OF assms(1), of ks "[]" "[]"] GetTasks_cong[OF t h, of ks "[]" "[]" 0]
      k assms(3) m2 by auto
  have f1: "\<forall>tid'. GetTask s' tid' = GetTask s tid'"
    using GetTask_cong[OF t h] by simp
  have f2: "\<forall>ks' state deployment limit.
                 GetTasks s' ks' state deployment limit = GetTasks s ks' state deployment limit"
    using GetTasks_cong[OF t h] by simp
  show ?thesis
    by (intro exI[of _ e] exI[of _ s'] conjI) (rule r e t h g l1 l2 f1 f2)+
qed

theorem DeleteDeployment_keeps_tasks_witness:
  "tasks_valid redis_store \<and> range_order redis_store [5, 1, 2]
   \<and> Tasks redis_store 2 = Some 1 \<and> Task.Deployment (heap redis_store ! 1) = ''redis''
   \<and> (\<exists>s'. DeleteDeployment redis_store ''redis'' = (None, s')
         \<and> GetTask s' 2 = Inr task2
         \<and> (\<exists>r. GetTasks s' [5, 1, 2] [] ''redis'' 0 = Inr r \<and> task2 \<in> set r))"
proof -
  have a: "StateData.Deployments redis_store ''redis'' \<noteq> None"
    by (simp add: redis_store_def)
  have v: "tasks_valid redis_store"
    by (simp add: tasks_valid_def redis_store_def)
  have o: "range_order redis_store [5, 1, 2]"
    by (auto simp: range_order_def redis_store_def)
  have t: "Tasks redis_store 2 = Some 1"
    by (simp add: redis_store_def)
  have d: "Task.Deployment (heap redis_store ! 1) = ''redis''"
    by (simp add: redis_store_def task2_def)
  have h: "heap redis_store ! 1 = task2"
    by (simp add: redis_store_def)
  show ?thesis
    using a v o t d DeleteDeployment_keeps_tasks[OF v o t d] unfolding h by blast
qed

end
